theory Spec2Isabelle
  imports Main
begin

section \<open>The student table\<close>

text \<open>
  A value of the \<open>age\<close> attribute. In a loaded object that the handler has assigned it
  is the text of the form field; in a stored row it is what the \<open>db.Integer\<close> column of
  the SQLite table keeps of the value it was given. \<open>NumVal t\<close> stands for the number the
  store reads in floating point from the numeric literal \<open>t\<close> (kept as an integer when
  that number is integral and exact, as a real otherwise); its value is not computed here.
\<close>

datatype cell = IntVal int | NumVal string | TextVal string

text \<open>
  The model class \<open>Student\<close> of \<open>app.py\<close> declares four columns. The primary key is
  called \<open>sid\<close> here (\<open>id\<close> is the identity function of HOL).
\<close>

record student =
  sid :: int
  name :: string
  email :: string
  age :: cell

text \<open>
  The table is the list of its rows, held in primary-key order, the order in which a scan
  of the table (\<open>Student.query.all()\<close>) yields them.
\<close>

type_synonym table = "student list"

text \<open>
  The failures a request can end in: \<open>get_or_404\<close> finding no row, a form field that
  is missing from the submission, the store refusing a statement that breaks the
  primary key or the \<open>unique=True\<close> constraint on \<open>email\<close>, and an integer handed to
  the store that does not fit its 64-bit integers (Python's \<open>OverflowError\<close>, which no
  handler catches).
\<close>

datatype error = NotFound | BadRequest | ConstraintViolation | OverflowError

section \<open>Store operations\<close>

definition query_all :: "table \<Rightarrow> student list" where
  "query_all tbl = tbl"

text \<open>The integers of the store are signed 64-bit integers.\<close>

definition key_fits :: "int \<Rightarrow> bool" where
  "key_fits i \<longleftrightarrow> - (2 ^ 63) \<le> i \<and> i < 2 ^ 63"

text \<open>
  \<open>Student.query.get_or_404(id)\<close>: the id of the URL is a Python integer of any size
  (the route's \<open>int\<close> converter takes every string of digits); binding one that does not
  fit raises the overflow error before any row is looked at.
\<close>

definition get_or_404 :: "int \<Rightarrow> table \<Rightarrow> error + student" where
  "get_or_404 i tbl =
     (if key_fits i then
        (case find (\<lambda>r. sid r = i) tbl of None \<Rightarrow> Inl NotFound | Some r \<Rightarrow> Inr r)
      else Inl OverflowError)"

subsection \<open>What the integer column keeps of a text\<close>

text \<open>
  The column \<open>age\<close> is declared \<open>db.Integer\<close>, and the handlers bind the form text to
  it without converting it. The store then converts the text itself: a well-formed integer
  literal that fits 64 bits becomes that integer, any other well-formed numeric literal
  becomes the number read from it, and every other text is kept as text. A literal may
  have white space before and after it and a sign; a numeric literal has digits with an
  optional decimal point, at least one digit in all, and an optional exponent with at
  least one digit.
\<close>

definition is_space :: "char \<Rightarrow> bool" where
  "is_space c \<longleftrightarrow> c \<in> set [CHR 0x20, CHR 0x09, CHR 0x0A, CHR 0x0B, CHR 0x0C, CHR 0x0D]"

definition is_digit :: "char \<Rightarrow> bool" where
  "is_digit c \<longleftrightarrow> c \<in> set ''0123456789''"

definition digit_val :: "char \<Rightarrow> int" where
  "digit_val c = int (length (takeWhile (\<lambda>d. d \<noteq> c) ''0123456789''))"

definition digits_value :: "string \<Rightarrow> int" where
  "digits_value ds = foldl (\<lambda>v c. 10 * v + digit_val c) 0 ds"

definition trim :: "string \<Rightarrow> string" where
  "trim t = rev (dropWhile is_space (rev (dropWhile is_space t)))"

definition split_sign :: "string \<Rightarrow> bool \<times> string" where
  "split_sign t =
     (case t of
        [] \<Rightarrow> (False, [])
      | c # r \<Rightarrow> if c = CHR ''-'' then (True, r) else if c = CHR ''+'' then (False, r)
                 else (False, t))"

definition int_literal :: "string \<Rightarrow> int option" where
  "int_literal t =
     (case split_sign (trim t) of
        (neg, ds) \<Rightarrow>
          if ds \<noteq> [] \<and> list_all is_digit ds
          then Some (if neg then - digits_value ds else digits_value ds)
          else None)"

definition exponent_ok :: "string \<Rightarrow> bool" where
  "exponent_ok r =
     (case r of
        [] \<Rightarrow> True
      | c # ex \<Rightarrow>
          (c = CHR ''e'' \<or> c = CHR ''E'')
          \<and> snd (split_sign ex) \<noteq> [] \<and> list_all is_digit (snd (split_sign ex)))"

definition real_literal :: "string \<Rightarrow> bool" where
  "real_literal t =
     (let r = snd (split_sign (trim t));
          whole = takeWhile is_digit r;
          r1 = dropWhile is_digit r
      in case r1 of
           [] \<Rightarrow> whole \<noteq> []
         | c # r2 \<Rightarrow>
             if c = CHR ''.''
             then whole @ takeWhile is_digit r2 \<noteq> [] \<and> exponent_ok (dropWhile is_digit r2)
             else whole \<noteq> [] \<and> exponent_ok r1)"

fun integer_affinity :: "cell \<Rightarrow> cell" where
  "integer_affinity (TextVal t) =
     (case int_literal t of
        Some v \<Rightarrow> if key_fits v then IntVal v else NumVal t
      | None \<Rightarrow> if real_literal t then NumVal t else TextVal t)"
| "integer_affinity (IntVal v) = IntVal v"
| "integer_affinity (NumVal t) = NumVal t"

subsection \<open>Statements\<close>

text \<open>
  An integer primary key that the insert leaves out is assigned by the store: one more than
  the largest key in the table, and 1 in an empty table. (Once the largest key is
  \<open>2 ^ 63 - 1\<close> the store tries unused keys at random instead; the results about a
  successful insert are stated for tables whose next key fits.)
\<close>

definition next_id :: "table \<Rightarrow> int" where
  "next_id tbl = (case tbl of [] \<Rightarrow> 1 | r # rs \<Rightarrow> fold max (map sid rs) (sid r) + 1)"

text \<open>\<open>db.session.add(new_student); db.session.commit()\<close>: one INSERT.\<close>

definition insert_row :: "string \<Rightarrow> string \<Rightarrow> cell \<Rightarrow> table \<Rightarrow> error + table" where
  "insert_row n e a tbl =
     (if find (\<lambda>r. email r = e) tbl \<noteq> None then Inl ConstraintViolation
      else Inr (tbl @ [\<lparr>sid = next_id tbl, name = n, email = e, age = integer_affinity a\<rparr>]))"

text \<open>
  The flush of a loaded object whose \<open>name\<close>, \<open>email\<close> and \<open>age\<close> were assigned: one
  UPDATE of the row with the object's key; the integer column converts the age it is
  given as it does on an insert.
\<close>

definition update_row :: "int \<Rightarrow> student \<Rightarrow> table \<Rightarrow> error + table" where
  "update_row i s tbl =
     (if find (\<lambda>r. email r = email s \<and> sid r \<noteq> i) tbl \<noteq> None then Inl ConstraintViolation
      else Inr (map (\<lambda>r. if sid r = i then s\<lparr>age := integer_affinity (age s)\<rparr> else r) tbl))"

text \<open>\<open>db.session.delete(student); db.session.commit()\<close>: one DELETE by key.\<close>

definition delete_row :: "int \<Rightarrow> table \<Rightarrow> table" where
  "delete_row i tbl = filter (\<lambda>r. sid r \<noteq> i) tbl"

text \<open>
  The flush of a loaded object whose \<open>id\<close> was assigned: nothing when the value is the
  one it had, otherwise one UPDATE of the key, which the store refuses when another row
  holds the new key.
\<close>

definition update_pk :: "int \<Rightarrow> int \<Rightarrow> table \<Rightarrow> error + table" where
  "update_pk old new tbl =
     (if new = old then Inr tbl
      else if find (\<lambda>r. sid r = new) tbl \<noteq> None then Inl ConstraintViolation
      else Inr (map (\<lambda>r. if sid r = old then r\<lparr>sid := new\<rparr> else r) tbl))"

text \<open>Python's \<open>enumerate(students, start=i)\<close>.\<close>

fun enumerate_from :: "int \<Rightarrow> 'a list \<Rightarrow> (int \<times> 'a) list" where
  "enumerate_from i [] = []"
| "enumerate_from i (x # xs) = (i, x) # enumerate_from (i + 1) xs"

text \<open>
  The loop \<open>for i, s in enumerate(students, start=1): s.id = i\<close> followed by the commit:
  the key updates reach the store one after the other, in the order of the objects' old
  keys, and the first one refused aborts the commit.
\<close>

fun reassign :: "(int \<times> student) list \<Rightarrow> table \<Rightarrow> error + table" where
  "reassign [] tbl = Inr tbl"
| "reassign ((i, s) # rest) tbl =
     (case update_pk (sid s) i tbl of
        Inl e \<Rightarrow> Inl e
      | Inr tbl' \<Rightarrow> reassign rest tbl')"

section \<open>Requests and responses\<close>

datatype http_method = GET | POST

type_synonym form = "string \<rightharpoonup> string"

text \<open>
  What a handler returns: one of the three templates with its arguments (the edit template
  takes the student object and the optional \<open>error\<close> text), or the redirect to the list
  page.
\<close>

datatype response =
    RenderIndex "student list"
  | RenderAdd
  | RenderEdit student "string option"
  | RedirectIndex

text \<open>The text of a caught exception, shortened to the constraint it names.\<close>

fun exc_text :: "error \<Rightarrow> string" where
  "exc_text NotFound = ''404 Not Found''"
| "exc_text BadRequest = ''400 Bad Request''"
| "exc_text ConstraintViolation = ''UNIQUE constraint failed: student.email''"
| "exc_text OverflowError = ''Python int too large to convert to SQLite INTEGER''"

text \<open>
  \<open>db = SQLAlchemy(app)\<close> passes no session options, so the session keeps the library's
  default: before a query runs, the pending changes of loaded objects are flushed to the
  store (autoflush). The edit handler is the only one that runs a query while a change is
  pending; it takes the option as its first argument, and the results about it that do not
  depend on the option are proved for both values.
\<close>

definition session_autoflush :: bool where
  "session_autoflush = True"

section \<open>The handlers\<close>

text \<open>
  Every handler maps the table before the request to its outcome and the table after it.
  A request that ends in an unhandled exception, or returns without a commit, leaves no
  trace: its session is discarded with whatever it had not committed.
\<close>

definition index :: "table \<Rightarrow> (error + response) \<times> table" where
  "index tbl = (Inr (RenderIndex (query_all tbl)), tbl)"

definition add_student :: "http_method \<Rightarrow> form \<Rightarrow> table \<Rightarrow> (error + response) \<times> table" where
  "add_student m frm tbl =
     (if m = POST then
        (case frm ''name'' of None \<Rightarrow> (Inl BadRequest, tbl) | Some n \<Rightarrow>
        (case frm ''email'' of None \<Rightarrow> (Inl BadRequest, tbl) | Some e \<Rightarrow>
        (case frm ''age'' of None \<Rightarrow> (Inl BadRequest, tbl) | Some a \<Rightarrow>
        (case insert_row n e (TextVal a) tbl of
           Inl err \<Rightarrow> (Inl err, tbl)
         | Inr tbl' \<Rightarrow> (Inr RedirectIndex, tbl')))))
      else (Inr RenderAdd, tbl))"

definition edit_student ::
  "bool \<Rightarrow> int \<Rightarrow> http_method \<Rightarrow> form \<Rightarrow> table \<Rightarrow> (error + response) \<times> table" where
  "edit_student af i m frm tbl =
     (case get_or_404 i tbl of
        Inl err \<Rightarrow> (Inl err, tbl)
      | Inr student \<Rightarrow>
          if m = POST then
            (case frm ''name'' of None \<Rightarrow> (Inl BadRequest, tbl) | Some n \<Rightarrow>
            (case frm ''email'' of None \<Rightarrow> (Inl BadRequest, tbl) | Some e \<Rightarrow>
            (case frm ''age'' of None \<Rightarrow> (Inl BadRequest, tbl) | Some a \<Rightarrow>
              let student' = student\<lparr>name := n, email := e, age := TextVal a\<rparr> in
              (case (if af then update_row i student' tbl else Inr tbl) of
                 Inl err \<Rightarrow> (Inl err, tbl)
               | Inr seen \<Rightarrow>
                   (case find (\<lambda>r. email r = email student' \<and> sid r \<noteq> i) seen of
                      Some existing \<Rightarrow>
                        (Inr (RenderEdit student' (Some ''Email already exists!'')), tbl)
                    | None \<Rightarrow>
                        (case (if af then Inr seen else update_row i student' tbl) of
                           Inl err \<Rightarrow>
                             (Inr (RenderEdit student'
                                (Some (''Update failed: '' @ exc_text err))), tbl)
                         | Inr tbl' \<Rightarrow> (Inr RedirectIndex, tbl')))))))
          else (Inr (RenderEdit student None), tbl))"

definition delete_student :: "int \<Rightarrow> table \<Rightarrow> (error + response) \<times> table" where
  "delete_student i tbl =
     (case get_or_404 i tbl of
        Inl err \<Rightarrow> (Inl err, tbl)
      | Inr student \<Rightarrow>
          let tbl1 = delete_row (sid student) tbl;
              students = sort_key sid tbl1
          in (case reassign (enumerate_from 1 students) tbl1 of
                Inl err \<Rightarrow> (Inl err, tbl1)
              | Inr tbl2 \<Rightarrow> (Inr RedirectIndex, tbl2)))"

section \<open>Sequences of requests\<close>

datatype request =
    ReqIndex
  | ReqAdd http_method form
  | ReqEdit int http_method form
  | ReqDelete int

fun serve :: "bool \<Rightarrow> request \<Rightarrow> table \<Rightarrow> (error + response) \<times> table" where
  "serve af ReqIndex tbl = index tbl"
| "serve af (ReqAdd m frm) tbl = add_student m frm tbl"
| "serve af (ReqEdit i m frm) tbl = edit_student af i m frm tbl"
| "serve af (ReqDelete i) tbl = delete_student i tbl"

fun run :: "bool \<Rightarrow> request list \<Rightarrow> table \<Rightarrow> table" where
  "run af [] tbl = tbl"
| "run af (req # reqs) tbl = run af reqs (snd (serve af req tbl))"

text \<open>
  The constraints every state of the store satisfies: the primary keys are distinct, the
  rows are held in key order, the keys the store assigns start at 1, and no two rows have
  the same email.
\<close>

definition wf_store :: "table \<Rightarrow> bool" where
  "wf_store tbl \<longleftrightarrow>
     distinct (map sid tbl) \<and> sorted (map sid tbl) \<and> list_all (\<lambda>r. 1 \<le> sid r) tbl
     \<and> distinct (map email tbl)"

text \<open>The rows \<open>xs\<close> with the keys \<open>i, i + 1, ...\<close> in place of their own.\<close>

fun renumber :: "int \<Rightarrow> table \<Rightarrow> table" where
  "renumber i [] = []"
| "renumber i (r # rs) = r\<lparr>sid := i\<rparr> # renumber (i + 1) rs"

section \<open>Sample data\<close>

abbreviation alice :: student where
  "alice \<equiv> \<lparr>sid = 1, name = ''Alice'', email = ''a@x.com'', age = IntVal 20\<rparr>"

abbreviation bob :: student where
  "bob \<equiv> \<lparr>sid = 2, name = ''Bob'', email = ''b@x.com'', age = IntVal 21\<rparr>"

abbreviation cy :: student where
  "cy \<equiv> \<lparr>sid = 5, name = ''Cy'', email = ''c@x.com'', age = IntVal 19\<rparr>"

abbreviation submitted :: "string \<Rightarrow> string \<Rightarrow> string \<Rightarrow> form" where
  "submitted n e a \<equiv> [''name'' \<mapsto> n, ''email'' \<mapsto> e, ''age'' \<mapsto> a]"

section \<open>Looking a row up\<close>



lemma get_or_404_found:
  "get_or_404 i tbl = Inr s \<Longrightarrow> s \<in> set tbl \<and> sid s = i"
  by (induction tbl) (auto simp: get_or_404_def split: if_splits)

lemma get_or_404_present:
  "distinct (map sid tbl) \<Longrightarrow> s \<in> set tbl \<Longrightarrow> key_fits (sid s) \<Longrightarrow>
   get_or_404 (sid s) tbl = Inr s"
  by (induction tbl) (auto simp: get_or_404_def)

lemma get_or_404_member:
  "i \<in> sid ` set tbl \<Longrightarrow> key_fits i \<Longrightarrow> \<exists>s. get_or_404 i tbl = Inr s"
  by (induction tbl) (auto simp: get_or_404_def)

subsection \<open>The conversion on the sample ages\<close>

lemmas literal_defs =
  int_literal_def real_literal_def exponent_ok_def split_sign_def trim_def is_space_def
  is_digit_def digits_value_def digit_val_def key_fits_def Let_def

lemma affinity_20: "integer_affinity (TextVal ''20'') = IntVal 20"
  by (simp add: literal_defs)

lemma affinity_21: "integer_affinity (TextVal ''21'') = IntVal 21"
  by (simp add: literal_defs)

lemma affinity_022: "integer_affinity (TextVal ''022'') = IntVal 22"
  by (simp add: literal_defs)

lemma affinity_padded: "integer_affinity (TextVal '' +020 '') = IntVal 20"
  by (simp add: literal_defs)

lemma affinity_twenty: "integer_affinity (TextVal ''twenty'') = TextVal ''twenty''"
  by (simp add: literal_defs)

lemma affinity_real: "integer_affinity (TextVal ''2.5e1'') = NumVal ''2.5e1''"
  by (simp add: literal_defs)

lemma affinity_large:
  "integer_affinity (TextVal ''99999999999999999999'') = NumVal ''99999999999999999999''"
  by (simp add: literal_defs)

lemma affinity_not_literal:
  "integer_affinity (TextVal ''20e'') = TextVal ''20e''
   \<and> integer_affinity (TextVal ''.'') = TextVal ''.''
   \<and> integer_affinity (TextVal ''2 0'') = TextVal ''2 0''
   \<and> integer_affinity (TextVal []) = TextVal []
   \<and> integer_affinity (TextVal ''0x14'') = TextVal ''0x14''"
  by (simp add: literal_defs)

section \<open>The store constraints are kept by every request\<close>

lemma fold_max_ge: "(a::int) \<le> fold max xs a \<and> (\<forall>x \<in> set xs. x \<le> fold max xs a)"
proof (induction xs arbitrary: a)
  case Nil
  then show ?case by simp
next
  case (Cons y ys)
  have "max y a \<le> fold max ys (max y a)" using Cons.IH by blast
  then show ?case using Cons.IH[of "max y a"] by auto
qed

lemma next_id_above: "r \<in> set tbl \<Longrightarrow> sid r < next_id tbl"
  using fold_max_ge by (cases tbl) (fastforce simp: next_id_def)+

lemma sorted_snoc_above:
  "sorted xs \<Longrightarrow> (\<And>x. x \<in> set xs \<Longrightarrow> x < (k::int)) \<Longrightarrow> sorted (xs @ [k])"
  by (auto simp: sorted_append less_imp_le)

lemma wf_insert_row:
  assumes "wf_store tbl" "insert_row n e a tbl = Inr tbl'"
  shows "wf_store tbl'"
proof -
  from assms(2) have fresh: "e \<notin> email ` set tbl"
    and tbl': "tbl' = tbl @ [\<lparr>sid = next_id tbl, name = n, email = e, age = integer_affinity a\<rparr>]"
    by (auto simp: insert_row_def find_None_iff split: if_splits)
  have above: "\<And>r. r \<in> set tbl \<Longrightarrow> sid r < next_id tbl" by (rule next_id_above)
  have pos: "1 \<le> next_id tbl"
  proof (cases tbl)
    case Nil then show ?thesis by (simp add: next_id_def)
  next
    case (Cons r rs)
    then have "1 \<le> sid r" "sid r < next_id tbl" using assms(1) above by (auto simp: wf_store_def)
    then show ?thesis by simp
  qed
  have "distinct (map sid tbl')" using assms(1) above by (force simp: wf_store_def tbl')
  moreover have "sorted (map sid tbl')" using assms(1) above
    by (auto simp: wf_store_def tbl' intro!: sorted_snoc_above)
  moreover have "list_all (\<lambda>r. 1 \<le> sid r) tbl'" using assms(1) pos by (simp add: wf_store_def tbl')
  moreover have "distinct (map email tbl')" using assms(1) fresh by (auto simp: wf_store_def tbl')
  ultimately show ?thesis by (simp add: wf_store_def)
qed

lemma wf_add_student: "wf_store tbl \<Longrightarrow> wf_store (snd (add_student m frm tbl))"
  by (auto simp: add_student_def split: option.splits sum.splits dest: wf_insert_row)

lemma map_sid_update:
  "sid s = i \<Longrightarrow> map sid (map (\<lambda>r. if sid r = i then s else r) tbl) = map sid tbl"
  by (induction tbl) auto

lemma list_all_update:
  "P s \<Longrightarrow> list_all P tbl \<Longrightarrow> list_all P (map (\<lambda>r. if sid r = i then s else r) tbl)"
  by (induction tbl) auto

lemma email_update_notin:
  "x \<noteq> email s \<Longrightarrow> x \<notin> email ` set tbl \<Longrightarrow>
   x \<notin> set (map email (map (\<lambda>r. if sid r = i then s else r) tbl))"
  by (induction tbl) auto

lemma distinct_email_update:
  "distinct (map email tbl) \<Longrightarrow> distinct (map sid tbl) \<Longrightarrow>
   (\<And>r. r \<in> set tbl \<Longrightarrow> sid r \<noteq> i \<Longrightarrow> email r \<noteq> email s) \<Longrightarrow>
   distinct (map email (map (\<lambda>r. if sid r = i then s else r) tbl))"
proof (induction tbl)
  case Nil
  then show ?case by simp
next
  case (Cons a tbl)
  have IH: "distinct (map email (map (\<lambda>r. if sid r = i then s else r) tbl))"
    using Cons by auto
  show ?case
  proof (cases "sid a = i")
    case True
    then have "i \<notin> sid ` set tbl" using Cons.prems(2) by simp
    then have "\<And>r. r \<in> set tbl \<Longrightarrow> sid r \<noteq> i" by blast
    then have "map (\<lambda>r. if sid r = i then s else r) tbl = tbl" by (induction tbl) auto
    moreover have "email r \<noteq> email s" if "r \<in> set tbl" for r
      using Cons.prems(3)[of r] \<open>i \<notin> sid ` set tbl\<close> that by auto
    then have "email s \<notin> email ` set tbl" by force
    ultimately show ?thesis using True Cons.prems(1) by simp
  next
    case False
    have "email a \<noteq> email s" using Cons.prems(3)[of a] False by simp
    moreover have "email a \<notin> email ` set tbl" using Cons.prems(1) by auto
    ultimately have "email a \<notin> set (map email (map (\<lambda>r. if sid r = i then s else r) tbl))"
      by (rule email_update_notin)
    then show ?thesis using False IH by simp
  qed
qed

lemma wf_update_row:
  assumes "wf_store tbl" "sid s = i" "1 \<le> i" "update_row i s tbl = Inr tbl'"
  shows "wf_store tbl'"
proof -
  let ?s = "s\<lparr>age := integer_affinity (age s)\<rparr>"
  from assms(4) have ok: "\<And>r. r \<in> set tbl \<Longrightarrow> sid r \<noteq> i \<Longrightarrow> email r \<noteq> email ?s"
    and tbl': "tbl' = map (\<lambda>r. if sid r = i then ?s else r) tbl"
    by (auto simp: update_row_def find_None_iff split: if_splits)
  have key: "sid ?s = i" using assms(2) by simp
  have "map sid tbl' = map sid tbl" unfolding tbl' using key by (rule map_sid_update)
  moreover have "list_all (\<lambda>r. 1 \<le> sid r) tbl'" unfolding tbl'
    using assms(1,3) key by (intro list_all_update) (auto simp: wf_store_def)
  moreover have "distinct (map email tbl')" unfolding tbl'
    using assms(1) ok by (intro distinct_email_update) (auto simp: wf_store_def)
  ultimately show ?thesis using assms(1) by (simp add: wf_store_def)
qed

lemma wf_edit_student:
  assumes "wf_store tbl"
  shows "wf_store (snd (edit_student af i m frm tbl))"
proof (cases "get_or_404 i tbl")
  case (Inl e)
  then show ?thesis using assms by (simp add: edit_student_def)
next
  case (Inr s)
  then have s: "s \<in> set tbl" "sid s = i" using get_or_404_found by auto
  then have pos: "1 \<le> i" using assms by (auto simp: wf_store_def list_all_iff)
  have upd: "wf_store tbl'"
    if "update_row i (s\<lparr>name := n, email := e, age := a\<rparr>) tbl = Inr tbl'" for n e a tbl'
    using wf_update_row[OF assms _ pos that] s by simp
  show ?thesis using assms Inr upd
    by (auto simp: edit_student_def Let_def split: option.splits sum.splits if_splits)
qed

subsection \<open>Renumbering after a delete\<close>

lemma map_update_other:
  "\<forall>r \<in> set xs. sid r \<noteq> k \<Longrightarrow> map (\<lambda>r. if sid r = k then g r else r) xs = xs"
  by (induction xs) auto

lemma update_pk_same: "update_pk (sid x) (sid x) tbl = Inr tbl"
  by (simp add: update_pk_def)

lemma update_pk_move:
  assumes "\<forall>r \<in> set pre. sid r < i" "i < sid x" "\<forall>r \<in> set xs. sid x < sid r"
  shows "update_pk (sid x) i (pre @ x # xs) = Inr (pre @ x\<lparr>sid := i\<rparr> # xs)"
proof -
  have free: "find (\<lambda>r. sid r = i) (pre @ x # xs) = None"
    using assms by (fastforce simp: find_None_iff)
  have "map (\<lambda>r. if sid r = sid x then r\<lparr>sid := i\<rparr> else r) pre = pre"
    using assms by (intro map_update_other) auto
  moreover have "map (\<lambda>r. if sid r = sid x then r\<lparr>sid := i\<rparr> else r) xs = xs"
    using assms by (intro map_update_other) auto
  ultimately show ?thesis using free assms(2) by (simp add: update_pk_def)
qed

lemma reassign_renumber:
  "\<forall>r \<in> set pre. sid r < i \<Longrightarrow> sorted (map sid xs) \<Longrightarrow> distinct (map sid xs) \<Longrightarrow>
   \<forall>r \<in> set xs. i \<le> sid r \<Longrightarrow>
   reassign (enumerate_from i xs) (pre @ xs) = Inr (pre @ renumber i xs)"
proof (induction xs arbitrary: i pre)
  case Nil
  then show ?case by simp
next
  case (Cons x xs)
  have above: "\<forall>r \<in> set xs. sid x < sid r"
    using Cons.prems(2,3) by (fastforce simp: order_less_le)
  have step: "update_pk (sid x) i (pre @ x # xs) = Inr (pre @ x\<lparr>sid := i\<rparr> # xs)"
  proof (cases "sid x = i")
    case True
    then show ?thesis using update_pk_same[of x "pre @ x # xs"] by simp
  next
    case False
    then have "i < sid x" using Cons.prems(4) by simp
    then show ?thesis using Cons.prems(1) above by (intro update_pk_move)
  qed
  have "reassign (enumerate_from (i + 1) xs) ((pre @ [x\<lparr>sid := i\<rparr>]) @ xs)
        = Inr ((pre @ [x\<lparr>sid := i\<rparr>]) @ renumber (i + 1) xs)"
  proof (rule Cons.IH)
    show "\<forall>r \<in> set (pre @ [x\<lparr>sid := i\<rparr>]). sid r < i + 1" using Cons.prems(1) by auto
    show "sorted (map sid xs)" using Cons.prems(2) by simp
    show "distinct (map sid xs)" using Cons.prems(3) by simp
    show "\<forall>r \<in> set xs. i + 1 \<le> sid r" using above Cons.prems(4) by fastforce
  qed
  then show ?case using step by simp
qed

lemma renumber_sid: "map sid (renumber i xs) = [i..i + int (length xs) - 1]"
proof (induction xs arbitrary: i)
  case Nil
  then show ?case by simp
next
  case (Cons x xs)
  have "[i..i + int (length (x # xs)) - 1] = i # [i + 1..i + 1 + int (length xs) - 1]"
    by (subst upto_rec1) (simp_all add: add.commute add.left_commute)
  then show ?case using Cons.IH[of "i + 1"] by simp
qed

lemma renumber_fields:
  "map name (renumber i xs) = map name xs \<and> map email (renumber i xs) = map email xs
   \<and> map age (renumber i xs) = map age xs \<and> length (renumber i xs) = length xs"
  by (induction xs arbitrary: i) auto

lemma wf_renumber:
  assumes "distinct (map email xs)"
  shows "wf_store (renumber 1 xs)"
proof -
  have ids: "map sid (renumber 1 xs) = [1..int (length xs)]" using renumber_sid[of 1 xs] by simp
  have "list_all (\<lambda>r. 1 \<le> sid r) (renumber 1 xs)"
  proof -
    have "\<forall>k \<in> set (map sid (renumber 1 xs)). 1 \<le> k" unfolding ids by simp
    then show ?thesis by (simp add: list_all_iff)
  qed
  then show ?thesis using assms renumber_fields[of 1 xs] by (simp add: wf_store_def ids)
qed

lemma wf_delete_row:
  "wf_store tbl \<Longrightarrow> wf_store (delete_row i tbl)"
  by (auto simp: wf_store_def delete_row_def distinct_map_filter sorted_filter list_all_iff)

lemma delete_student_wf:
  assumes "wf_store tbl" "get_or_404 i tbl = Inr s"
  shows "delete_student i tbl = (Inr RedirectIndex, renumber 1 (filter (\<lambda>r. sid r \<noteq> i) tbl))"
proof -
  let ?t = "filter (\<lambda>r. sid r \<noteq> i) tbl"
  have s: "sid s = i" using assms(2) get_or_404_found by blast
  have wf: "wf_store ?t" using wf_delete_row[OF assms(1), of i] by (simp add: delete_row_def)
  then have srt: "sort_key sid ?t = ?t" by (simp add: wf_store_def sort_key_id_if_sorted)
  have "reassign (enumerate_from 1 ?t) ([] @ ?t) = Inr ([] @ renumber 1 ?t)"
    using wf by (intro reassign_renumber) (auto simp: wf_store_def list_all_iff)
  then show ?thesis using assms(2) s srt by (simp add: delete_student_def delete_row_def)
qed

lemma wf_delete_student: 
  assumes "wf_store tbl"
  shows "wf_store (snd (delete_student i tbl))"
proof (cases "get_or_404 i tbl")
  case (Inl e)
  then show ?thesis using assms by (simp add: delete_student_def)
next
  case (Inr s)
  have "wf_store (filter (\<lambda>r. sid r \<noteq> i) tbl)"
    using wf_delete_row[OF assms, of i] by (simp add: delete_row_def)
  then have "wf_store (renumber 1 (filter (\<lambda>r. sid r \<noteq> i) tbl))"
    by (intro wf_renumber) (simp add: wf_store_def)
  then show ?thesis using delete_student_wf[OF assms Inr] by simp
qed

lemma wf_serve: "wf_store tbl \<Longrightarrow> wf_store (snd (serve af req tbl))"
  by (cases req) (simp_all add: index_def wf_add_student wf_edit_student wf_delete_student)

lemma wf_run: "wf_store tbl \<Longrightarrow> wf_store (run af reqs tbl)"
  by (induction reqs arbitrary: tbl) (simp_all add: wf_serve)

lemma length_delete_one:
  "distinct (map sid tbl) \<Longrightarrow> i \<in> sid ` set tbl \<Longrightarrow>
   length (filter (\<lambda>r. sid r \<noteq> i) tbl) + 1 = length tbl"
proof (induction tbl)
  case Nil
  then show ?case by simp
next
  case (Cons a tbl)
  show ?case
  proof (cases "sid a = i")
    case True
    then have "i \<notin> sid ` set tbl" using Cons.prems(1) by simp
    then have "\<forall>r \<in> set tbl. sid r \<noteq> i" by blast
    then have "filter (\<lambda>r. sid r \<noteq> i) tbl = tbl" by (simp add: filter_id_conv)
    then show ?thesis using True by simp
  next
    case False
    then show ?thesis using Cons by auto
  qed
qed

section \<open>The claims\<close>

text \<open>
  C1. In every state of the store that holds the id, the delete handler removes the row
  with that id and gives the remaining rows the ids 1, ..., n, where n is the number of
  rows left, in the order of their former ids; name, email and age of each row stay as
  they were, and the list page that follows shows exactly these rows. The states of the
  store are the tables that satisfy its constraints (\<open>wf_store\<close>); every sequence of
  requests from the empty table leads to one (\<open>wf_run\<close>). An id that a row of the store
  holds is a 64-bit key, which is what the bound on \<open>i\<close> says.
\<close>

theorem delete_renumbers:
  assumes "wf_store tbl" and "i \<in> sid ` set tbl" and "i < 2 ^ 63"
  shows "fst (delete_student i tbl) = Inr RedirectIndex
    \<and> length (snd (delete_student i tbl)) + 1 = length tbl
    \<and> map sid (snd (delete_student i tbl)) = [1..int (length tbl) - 1]
    \<and> map (\<lambda>r. (name r, email r, age r)) (snd (delete_student i tbl))
        = map (\<lambda>r. (name r, email r, age r)) (sort_key sid (filter (\<lambda>r. sid r \<noteq> i) tbl))
    \<and> fst (index (snd (delete_student i tbl))) = Inr (RenderIndex (snd (delete_student i tbl)))"
proof -
  let ?t = "filter (\<lambda>r. sid r \<noteq> i) tbl"
  have "1 \<le> i" using assms(1,2) by (auto simp: wf_store_def list_all_iff)
  then have "key_fits i" using assms(3) by (simp add: key_fits_def)
  then obtain s where s: "get_or_404 i tbl = Inr s"
    using get_or_404_member[OF assms(2)] by blast
  have del: "delete_student i tbl = (Inr RedirectIndex, renumber 1 ?t)"
    using assms(1) s by (rule delete_student_wf)
  have len: "length ?t + 1 = length tbl"
    using assms by (intro length_delete_one) (simp add: wf_store_def)
  have srt: "sort_key sid ?t = ?t"
    using assms(1) by (intro sort_key_id_if_sorted) (simp add: wf_store_def sorted_filter)
  have "int (length ?t) = int (length tbl) - 1" using len by linarith
  then have ids: "map sid (renumber 1 ?t) = [1..int (length tbl) - 1]"
    using renumber_sid[of 1 ?t] by simp
  have flds: "map (\<lambda>r. (name r, email r, age r)) (renumber i xs)
      = map (\<lambda>r. (name r, email r, age r)) xs" for i xs
    by (induction xs arbitrary: i) auto
  show ?thesis
    using len renumber_fields[of 1 ?t] by (simp add: del ids srt flds index_def query_all_def)
qed

theorem delete_renumbers_witness:
  "wf_store [alice, bob, cy] \<and> 2 \<in> sid ` set [alice, bob, cy] \<and> (2::int) < 2 ^ 63
   \<and> snd (delete_student 2 [alice, bob, cy]) = [alice, cy\<lparr>sid := 2\<rparr>]
   \<and> map sid (snd (delete_student 2 [alice, bob, cy])) = [1..2]
   \<and> fst (index (snd (delete_student 2 [alice, bob, cy]))) = Inr (RenderIndex [alice, cy\<lparr>sid := 2\<rparr>])"
proof -
  have wf: "wf_store [alice, bob, cy]" by (simp add: wf_store_def)
  have mem: "2 \<in> sid ` set [alice, bob, cy]" by simp
  have fits: "(2::int) < 2 ^ 63" by simp
  have run: "snd (delete_student 2 [alice, bob, cy]) = [alice, cy\<lparr>sid := 2\<rparr>]"
    by (simp add: delete_student_def get_or_404_def key_fits_def delete_row_def update_pk_def)
  show ?thesis using wf mem run delete_renumbers[OF wf mem fits] by simp
qed

text \<open>
  C2. An edit POST that submits the email of another row is meant to show the form again
  with the text "Email already exists!". The handler assigns the submitted email to the
  loaded object before it asks the store for another row with that email; the query first
  flushes the assignment, the store refuses the UPDATE, and the request ends in the
  unhandled constraint violation instead of the form. The table keeps every row as it was.
  Here: Alice and Bob are stored, and the edit of Bob submits Alice's email.
\<close>

theorem edit_collision_raises:
  "edit_student session_autoflush 2 POST (submitted ''Bob'' ''a@x.com'' ''21'') [alice, bob]
     = (Inl ConstraintViolation, [alice, bob])"
  by (simp add: edit_student_def session_autoflush_def get_or_404_def key_fits_def update_row_def)

text \<open>
  The same in general, with what the handler would answer if the query did not flush: the
  form with the text it was written to show.
\<close>

lemma edit_collision:
  assumes "get_or_404 i tbl = Inr s" and "r \<in> set tbl" and "sid r \<noteq> i" and "email r = e"
    and "frm ''name'' = Some n" and "frm ''email'' = Some e" and "frm ''age'' = Some a"
  shows "edit_student True i POST frm tbl = (Inl ConstraintViolation, tbl)"
    and "edit_student False i POST frm tbl
      = (Inr (RenderEdit (s\<lparr>name := n, email := e, age := TextVal a\<rparr>)
           (Some ''Email already exists!'')), tbl)"
proof -
  have "find (\<lambda>r. email r = e \<and> sid r \<noteq> i) tbl \<noteq> None"
    using assms(2,3,4) by (auto simp: find_None_iff)
  then show "edit_student True i POST frm tbl = (Inl ConstraintViolation, tbl)"
    and "edit_student False i POST frm tbl
      = (Inr (RenderEdit (s\<lparr>name := n, email := e, age := TextVal a\<rparr>)
           (Some ''Email already exists!'')), tbl)"
    using assms(1,5,6,7) by (auto simp: edit_student_def update_row_def)
qed

text \<open>
  C3. When the table holds a row with the submitted email, the add POST fails with the
  constraint violation and the table is the one before the request.
\<close>

theorem duplicate_email_refused:
  assumes "e \<in> email ` set tbl"
    and "frm ''name'' = Some n" and "frm ''email'' = Some e" and "frm ''age'' = Some a"
  shows "add_student POST frm tbl = (Inl ConstraintViolation, tbl)"
proof -
  have "find (\<lambda>r. email r = e) tbl \<noteq> None" using assms(1) by (auto simp: find_None_iff)
  then show ?thesis using assms(2-4) by (simp add: add_student_def insert_row_def)
qed

theorem duplicate_email_refused_witness:
  "''a@x.com'' \<in> email ` set [alice, bob]
   \<and> add_student POST (submitted ''Ann'' ''a@x.com'' ''30'') [alice, bob]
       = (Inl ConstraintViolation, [alice, bob])"
  using duplicate_email_refused[of "''a@x.com''" "[alice, bob]" "submitted ''Ann'' ''a@x.com'' ''30''"
      "''Ann''" "''30''"]
  by simp

text \<open>
  C4. From the empty table: adding Alice gives her id 1, adding Bob gives him id 2,
  deleting id 1 renumbers Bob to id 1, and the list page then shows exactly Bob with id 1.
  The forms carry the ages as the texts "20" and "21", which the integer column keeps as
  the integers 20 and 21.
\<close>

theorem scenario:
  "add_student POST (submitted ''Alice'' ''a@x.com'' ''20'') [] = (Inr RedirectIndex, [alice])
   \<and> add_student POST (submitted ''Bob'' ''b@x.com'' ''21'') [alice] = (Inr RedirectIndex, [alice, bob])
   \<and> delete_student 1 [alice, bob] = (Inr RedirectIndex, [bob\<lparr>sid := 1\<rparr>])
   \<and> index [bob\<lparr>sid := 1\<rparr>]
       = (Inr (RenderIndex [\<lparr>sid = 1, name = ''Bob'', email = ''b@x.com'', age = IntVal 21\<rparr>]),
          [bob\<lparr>sid := 1\<rparr>])"
  by (simp add: add_student_def delete_student_def index_def query_all_def insert_row_def
      next_id_def get_or_404_def key_fits_def delete_row_def update_pk_def affinity_20 affinity_21
      del: integer_affinity.simps)

text \<open>
  C5. After any sequence of requests from the empty table, no two rows have the same
  email, whatever the session's autoflush option is.
\<close>

theorem emails_stay_unique: "distinct (map email (run af reqs []))"
proof -
  have "wf_store []" by (simp add: wf_store_def)
  then have "wf_store (run af reqs [])" by (rule wf_run)
  then show ?thesis by (simp add: wf_store_def)
qed




lemma find_other_email_None:
  assumes "distinct (map email tbl)" and "s \<in> set tbl" and "email s = e" and "sid s = i"
  shows "find (\<lambda>r. email r = e \<and> sid r \<noteq> i) tbl = None"
proof -
  have "r = s" if "r \<in> set tbl" "email r = e" for r
    using assms(1,2,3) that by (metis distinct_map inj_on_def)
  then show ?thesis using assms(4) by (auto simp: find_None_iff)
qed

text \<open>
  C7. An edit POST for a stored student that submits the student's own email, with any
  name and age, succeeds: the row holds the submitted name and email and the submitted
  age as the integer column keeps it (the text "022" as the integer 22), the other rows
  are as before, and the response is the redirect to the list page. The key of a stored
  student is a 64-bit key, which is what the bound on \<open>sid s\<close> says.
\<close>

theorem edit_own_email:
  assumes "wf_store tbl" and "s \<in> set tbl" and "sid s < 2 ^ 63"
    and "frm ''name'' = Some n" and "frm ''email'' = Some (email s)" and "frm ''age'' = Some a"
  shows "edit_student af (sid s) POST frm tbl
      = (Inr RedirectIndex,
         map (\<lambda>r. if sid r = sid s
                   then \<lparr>sid = sid s, name = n, email = email s,
                          age = integer_affinity (TextVal a)\<rparr>
                   else r) tbl)
    \<and> get_or_404 (sid s) (snd (edit_student af (sid s) POST frm tbl))
      = Inr \<lparr>sid = sid s, name = n, email = email s, age = integer_affinity (TextVal a)\<rparr>"
proof -
  let ?m = "s\<lparr>name := n, email := email s, age := TextVal a\<rparr>"
  let ?s' = "?m\<lparr>age := integer_affinity (age ?m)\<rparr>"
  let ?t' = "map (\<lambda>r. if sid r = sid s then ?s' else r) tbl"
  have s'_eq: "?s' = \<lparr>sid = sid s, name = n, email = email s,
      age = integer_affinity (TextVal a)\<rparr>" by simp
  have pos: "1 \<le> sid s" using assms(1,2) by (auto simp: wf_store_def list_all_iff)
  then have fits: "key_fits (sid s)" using assms(3) by (simp add: key_fits_def)
  have get: "get_or_404 (sid s) tbl = Inr s"
    using assms(1,2) fits by (intro get_or_404_present) (simp_all add: wf_store_def)
  have none: "find (\<lambda>r. email r = email s \<and> sid r \<noteq> sid s) tbl = None"
    using assms(1,2) by (intro find_other_email_None[of tbl s]) (simp_all add: wf_store_def)
  then have upd: "update_row (sid s) ?m tbl = Inr ?t'" by (simp add: update_row_def)
  have wf': "wf_store ?t'" using wf_update_row[OF assms(1) _ pos upd] by simp
  have mem': "?s' \<in> set ?t'" using assms(2) by force
  have none': "find (\<lambda>r. email r = email s \<and> sid r \<noteq> sid s) ?t' = None"
    using wf' mem' by (intro find_other_email_None[of ?t' ?s']) (simp_all add: wf_store_def)
  have get': "get_or_404 (sid s) ?t' = Inr ?s'"
    using get_or_404_present[of ?t' ?s'] wf' mem' fits by (simp add: wf_store_def)
  have run: "edit_student af (sid s) POST frm tbl = (Inr RedirectIndex, ?t')"
    using get assms(4-6) none none' upd by (cases af) (simp_all add: edit_student_def)
  show ?thesis using run get' by (simp only: s'_eq snd_conv)
qed

theorem edit_own_email_witness:
  "wf_store [alice, bob] \<and> bob \<in> set [alice, bob] \<and> sid bob < 2 ^ 63
   \<and> edit_student session_autoflush 2 POST (submitted ''Robert'' ''b@x.com'' ''022'') [alice, bob]
      = (Inr RedirectIndex,
         [alice, \<lparr>sid = 2, name = ''Robert'', email = ''b@x.com'', age = IntVal 22\<rparr>])"
proof -
  have wf: "wf_store [alice, bob]" by (simp add: wf_store_def)
  have mem: "bob \<in> set [alice, bob]" by simp
  have fits: "sid bob < 2 ^ 63" by simp
  show ?thesis
    using wf mem edit_own_email[OF wf mem fits, of "submitted ''Robert'' ''b@x.com'' ''022''"
        "''Robert''" "''022''" session_autoflush]
    by (simp add: affinity_022 del: integer_affinity.simps)
qed

text \<open>
  C8. The column comment of \<open>name\<close> says "Cannot be empty", but \<open>nullable=False\<close>
  only refuses a missing value, and neither handler looks at the submitted text: an add
  POST and an edit POST with the empty string as name both succeed and store a row whose
  name is empty.
\<close>

theorem empty_name_is_stored:
  "add_student POST (submitted [] ''a@x.com'' ''20'') []
     = (Inr RedirectIndex, [\<lparr>sid = 1, name = [], email = ''a@x.com'', age = IntVal 20\<rparr>])
   \<and> edit_student session_autoflush 1 POST (submitted [] ''a@x.com'' ''20'') [alice]
     = (Inr RedirectIndex, [\<lparr>sid = 1, name = [], email = ''a@x.com'', age = IntVal 20\<rparr>])"
  by (simp add: add_student_def insert_row_def next_id_def edit_student_def session_autoflush_def
      get_or_404_def key_fits_def update_row_def affinity_20 del: integer_affinity.simps)

text \<open>
  C9. The list handler and the edit handler on a GET for an existing id render their
  page and leave the table as it was.
\<close>

theorem reads_do_not_mutate:
  assumes "get_or_404 i tbl = Inr s"
  shows "index tbl = (Inr (RenderIndex tbl), tbl)
    \<and> edit_student af i GET frm tbl = (Inr (RenderEdit s None), tbl)"
  using assms by (simp add: index_def query_all_def edit_student_def)

theorem reads_do_not_mutate_witness:
  "get_or_404 2 [alice, bob] = Inr bob
   \<and> index [alice, bob] = (Inr (RenderIndex [alice, bob]), [alice, bob])
   \<and> edit_student session_autoflush 2 GET Map.empty [alice, bob]
       = (Inr (RenderEdit bob None), [alice, bob])"
proof -
  have h: "get_or_404 2 [alice, bob] = Inr bob" by (simp add: get_or_404_def key_fits_def)
  show ?thesis using h reads_do_not_mutate[OF h, of session_autoflush Map.empty] by simp
qed

text \<open>
  C10, as stated: the add POST stores the age exactly as the submitted text. This fails
  for a text that is a numeric literal: the handler passes the text on unconverted, and
  the integer column keeps "020" as the integer 20.
\<close>

theorem add_converts_numeric_age:
  "add_student POST (submitted ''Dee'' ''d@x.com'' ''020'') [alice, bob]
     = (Inr RedirectIndex,
        [alice, bob, \<lparr>sid = 3, name = ''Dee'', email = ''d@x.com'', age = IntVal 20\<rparr>])
   \<and> age (last (snd (add_student POST (submitted ''Dee'' ''d@x.com'' ''020'') [alice, bob])))
       \<noteq> TextVal ''020''"
  by (simp add: add_student_def insert_row_def next_id_def literal_defs)

text \<open>
  C10, amended. The add handler neither converts nor checks the submitted age: with a
  fresh email, in a table whose next key fits, the add POST succeeds whatever the age
  text is. The integer column keeps a text that is no numeric literal exactly as it was
  submitted, and an integer literal that fits 64 bits as that integer.
\<close>

theorem add_age_unvalidated:
  assumes "frm ''name'' = Some n" and "frm ''email'' = Some e" and "frm ''age'' = Some a"
    and "e \<notin> email ` set tbl" and "next_id tbl < 2 ^ 63"
  shows "add_student POST frm tbl
      = (Inr RedirectIndex,
         tbl @ [\<lparr>sid = next_id tbl, name = n, email = e, age = integer_affinity (TextVal a)\<rparr>])
    \<and> (int_literal a = None \<and> \<not> real_literal a \<longrightarrow> integer_affinity (TextVal a) = TextVal a)
    \<and> (\<forall>v. int_literal a = Some v \<and> key_fits v \<longrightarrow> integer_affinity (TextVal a) = IntVal v)"
proof -
  have "find (\<lambda>r. email r = e) tbl = None" using assms(4) by (auto simp: find_None_iff)
  then show ?thesis using assms(1-3) by (simp add: add_student_def insert_row_def)
qed

theorem add_age_unvalidated_witness:
  "''d@x.com'' \<notin> email ` set [alice, bob] \<and> next_id [alice, bob] < 2 ^ 63
   \<and> add_student POST (submitted ''Dee'' ''d@x.com'' ''twenty'') [alice, bob]
     = (Inr RedirectIndex,
        [alice, bob, \<lparr>sid = 3, name = ''Dee'', email = ''d@x.com'', age = TextVal ''twenty''\<rparr>])
   \<and> int_literal ''twenty'' = None \<and> \<not> real_literal ''twenty''
   \<and> add_student POST (submitted ''Dee'' ''d@x.com'' '' +020 '') [alice, bob]
     = (Inr RedirectIndex,
        [alice, bob, \<lparr>sid = 3, name = ''Dee'', email = ''d@x.com'', age = IntVal 20\<rparr>])
   \<and> int_literal '' +020 '' = Some 20 \<and> key_fits 20"
proof -
  have fresh: "''d@x.com'' \<notin> email ` set [alice, bob]" by simp
  have nxt: "next_id [alice, bob] < 2 ^ 63" by (simp add: next_id_def)
  have lit: "int_literal ''twenty'' = None \<and> \<not> real_literal ''twenty''
      \<and> int_literal '' +020 '' = Some 20 \<and> key_fits 20"
    by (simp add: literal_defs)
  show ?thesis
    using fresh nxt lit
      add_age_unvalidated[of "submitted ''Dee'' ''d@x.com'' ''twenty''" "''Dee''" "''d@x.com''"
        "''twenty''" "[alice, bob]"]
      add_age_unvalidated[of "submitted ''Dee'' ''d@x.com'' '' +020 ''" "''Dee''" "''d@x.com''"
        "'' +020 ''" "[alice, bob]"]
    by (simp add: next_id_def affinity_twenty affinity_padded del: integer_affinity.simps)
qed

end
